theory Spec2Isabelle
  imports Complex_Main "HOL-Library.Word"
begin

unbundle bit_operations_syntax

section \<open>JavaScript numbers\<close>

text \<open>
  The driver computes with JavaScript numbers. A number is modelled as an exact rational
  or one of the three special values; the rounding of binary floating point and the sign
  of zero are not modelled (zero is always the zero of an unsigned quantity here).
  Division by zero gives an infinity or NaN, as in JavaScript, and every comparison
  with NaN is false.
\<close>

datatype jsnum = Num rat | PosInf | NegInf | NaN

fun js_div :: "jsnum \<Rightarrow> jsnum \<Rightarrow> jsnum" where
  "js_div NaN _ = NaN"
| "js_div _ NaN = NaN"
| "js_div (Num a) (Num b) =
     (if b = 0 then (if a = 0 then NaN else if 0 < a then PosInf else NegInf)
      else Num (a / b))"
| "js_div (Num a) PosInf = Num 0"
| "js_div (Num a) NegInf = Num 0"
| "js_div PosInf (Num b) = (if 0 \<le> b then PosInf else NegInf)"
| "js_div NegInf (Num b) = (if 0 \<le> b then NegInf else PosInf)"
| "js_div PosInf PosInf = NaN"
| "js_div PosInf NegInf = NaN"
| "js_div NegInf PosInf = NaN"
| "js_div NegInf NegInf = NaN"

fun js_mul :: "jsnum \<Rightarrow> jsnum \<Rightarrow> jsnum" where
  "js_mul NaN _ = NaN"
| "js_mul _ NaN = NaN"
| "js_mul (Num a) (Num b) = Num (a * b)"
| "js_mul (Num a) PosInf = (if a = 0 then NaN else if 0 < a then PosInf else NegInf)"
| "js_mul (Num a) NegInf = (if a = 0 then NaN else if 0 < a then NegInf else PosInf)"
| "js_mul PosInf (Num b) = (if b = 0 then NaN else if 0 < b then PosInf else NegInf)"
| "js_mul NegInf (Num b) = (if b = 0 then NaN else if 0 < b then NegInf else PosInf)"
| "js_mul PosInf PosInf = PosInf"
| "js_mul PosInf NegInf = NegInf"
| "js_mul NegInf PosInf = NegInf"
| "js_mul NegInf NegInf = PosInf"

fun js_add :: "jsnum \<Rightarrow> jsnum \<Rightarrow> jsnum" where
  "js_add NaN _ = NaN"
| "js_add _ NaN = NaN"
| "js_add (Num a) (Num b) = Num (a + b)"
| "js_add (Num a) PosInf = PosInf"
| "js_add (Num a) NegInf = NegInf"
| "js_add PosInf (Num b) = PosInf"
| "js_add NegInf (Num b) = NegInf"
| "js_add PosInf PosInf = PosInf"
| "js_add PosInf NegInf = NaN"
| "js_add NegInf PosInf = NaN"
| "js_add NegInf NegInf = NegInf"

fun js_neg :: "jsnum \<Rightarrow> jsnum" where
  "js_neg (Num a) = Num (- a)"
| "js_neg PosInf = NegInf"
| "js_neg NegInf = PosInf"
| "js_neg NaN = NaN"

definition js_sub :: "jsnum \<Rightarrow> jsnum \<Rightarrow> jsnum" where
  "js_sub a b = js_add a (js_neg b)"

text \<open>\<^verbatim>\<open>Math.abs\<close>.\<close>

fun js_abs :: "jsnum \<Rightarrow> jsnum" where
  "js_abs (Num a) = Num \<bar>a\<bar>"
| "js_abs PosInf = PosInf"
| "js_abs NegInf = PosInf"
| "js_abs NaN = NaN"

text \<open>The comparisons \<^verbatim>\<open>a < b\<close> and \<^verbatim>\<open>a > b\<close>.\<close>

fun js_lt :: "jsnum \<Rightarrow> jsnum \<Rightarrow> bool" where
  "js_lt NaN _ = False"
| "js_lt _ NaN = False"
| "js_lt (Num a) (Num b) = (a < b)"
| "js_lt (Num a) PosInf = True"
| "js_lt (Num a) NegInf = False"
| "js_lt PosInf _ = False"
| "js_lt NegInf (Num b) = True"
| "js_lt NegInf PosInf = True"
| "js_lt NegInf NegInf = False"

definition js_gt :: "jsnum \<Rightarrow> jsnum \<Rightarrow> bool" where
  "js_gt a b = js_lt b a"

text \<open>\<^verbatim>\<open>Math.round\<close>: the nearest integer, a half rounded towards plus infinity.\<close>

fun js_round :: "jsnum \<Rightarrow> jsnum" where
  "js_round (Num a) = Num (of_int \<lfloor>a + 1 / 2\<rfloor>)"
| "js_round PosInf = PosInf"
| "js_round NegInf = NegInf"
| "js_round NaN = NaN"

declare js_round.simps(1) [simp del]

text \<open>\<^verbatim>\<open>Math.ceil\<close>.\<close>

fun js_ceil :: "jsnum \<Rightarrow> jsnum" where
  "js_ceil (Num a) = Num (of_int \<lceil>a\<rceil>)"
| "js_ceil PosInf = PosInf"
| "js_ceil NegInf = NegInf"
| "js_ceil NaN = NaN"

text \<open>An unsigned integer as a number; \<^verbatim>\<open>null\<close> converts to 0 in arithmetic.\<close>

definition num_of_nat :: "nat \<Rightarrow> jsnum" where
  "num_of_nat n = Num (of_nat n)"

fun to_number :: "jsnum option \<Rightarrow> jsnum" where
  "to_number None = Num 0"
| "to_number (Some v) = v"

section \<open>Errors\<close>

text \<open>
  Every exception of the driver is a value. \<open>NotConnected\<close> is
  \<^verbatim>\<open>Error('device not connected')\<close>, \<open>InvalidParameter\<close> the errors thrown for a
  rejected argument, \<open>Busy\<close> the error of \<^verbatim>\<open>setImage\<close> after its bounded wait,
  \<open>RangeError\<close> an out-of-bounds access to a \<^verbatim>\<open>DataView\<close>, \<open>TypeError\<close> a
  property access on \<^verbatim>\<open>null\<close> or \<^verbatim>\<open>undefined\<close>, and \<open>TransportError\<close> a
  rejected promise of the HID device.
\<close>

datatype error = NotConnected | InvalidParameter | Busy | RangeError | TypeError | TransportError

text \<open>Sequencing of computations that may throw: the first error ends the computation.\<close>

definition bindE :: "error + 'a \<Rightarrow> ('a \<Rightarrow> error + 'b) \<Rightarrow> error + 'b" where
  "bindE m f = (case m of Inl e \<Rightarrow> Inl e | Inr v \<Rightarrow> f v)"

section \<open>Data views\<close>

type_synonym byte = "8 word"
type_synonym dataview = "byte list"

definition getUint8 :: "dataview \<Rightarrow> nat \<Rightarrow> error + nat" where
  "getUint8 dv off = (if off + 1 \<le> length dv then Inr (unat (dv ! off)) else Inl RangeError)"

text \<open>
  \<^verbatim>\<open>getUint16(off)\<close> reads big-endian (the byte at \<open>off\<close> is the high byte),
  \<^verbatim>\<open>getUint16(off, true)\<close> little-endian.
\<close>

definition getUint16 :: "dataview \<Rightarrow> nat \<Rightarrow> error + 16 word" where
  "getUint16 dv off =
     (if off + 2 \<le> length dv
      then Inr (of_nat (256 * unat (dv ! off) + unat (dv ! (off + 1))))
      else Inl RangeError)"


section \<open>Configuration, samples and driver state\<close>

text \<open>
  The private \<^verbatim>\<open>#config\<close> object. A field that is \<^verbatim>\<open>null\<close> is \<open>None\<close>.
  The writing area is the array \<^verbatim>\<open>[x1, y1, x2, y2]\<close>.
\<close>

record config =
  chunkSize :: nat
  imageFormat24BGR :: nat
  width :: "nat option"
  height :: "nat option"
  scaleFactorX :: "jsnum option"
  scaleFactorY :: "jsnum option"
  tabletMaxPressure :: "nat option"
  maxReportRate :: "nat option"
  tabletMaxX :: "nat option"
  tabletMaxY :: "nat option"
  penColor :: "nat list option"
  penWidth :: "nat option"
  backgroundColor :: "nat list option"
  brightness :: "nat option"
  inkMode :: "bool option"
  writingMode :: "nat option"
  writingArea :: "(rat \<times> rat \<times> rat \<times> rat) option"
  deviceName :: "string option"
  firmware :: "string option"
  eSerial :: "string option"

definition initial_config :: config where
  "initial_config =
     \<lparr> chunkSize = 253, imageFormat24BGR = 4, width = None, height = None,
       scaleFactorX = None, scaleFactorY = None, tabletMaxPressure = None,
       maxReportRate = None, tabletMaxX = None, tabletMaxY = None,
       penColor = None, penWidth = None, backgroundColor = None, brightness = None,
       inkMode = None, writingMode = None, writingArea = None,
       deviceName = None, firmware = None, eSerial = None \<rparr>"

text \<open>The report ids of \<^verbatim>\<open>#command\<close>.\<close>

definition penData :: nat where "penData = 0x01"
definition information :: nat where "information = 0x08"
definition capability :: nat where "capability = 0x09"
definition cmdWritingMode :: nat where "cmdWritingMode = 0x0E"
definition cmdESerial :: nat where "cmdESerial = 0x0F"
definition cmdClearScreen :: nat where "cmdClearScreen = 0x20"
definition cmdInkMode :: nat where "cmdInkMode = 0x21"
definition writeImageStart :: nat where "writeImageStart = 0x25"
definition writeImageData :: nat where "writeImageData = 0x26"
definition writeImageEnd :: nat where "writeImageEnd = 0x27"
definition cmdWritingArea :: nat where "cmdWritingArea = 0x2A"
definition cmdBrightness :: nat where "cmdBrightness = 0x2B"
definition cmdBackgroundColor :: nat where "cmdBackgroundColor = 0x2E"
definition cmdPenColorAndWidth :: nat where "cmdPenColorAndWidth = 0x2D"
definition penDataTiming :: nat where "penDataTiming = 0x34"

text \<open>
  The packet object built by \<^verbatim>\<open>#onHidInputReport\<close>. The fields \<^verbatim>\<open>x\<close> and
  \<^verbatim>\<open>y\<close> (tablet units) are \<open>tx\<close> and \<open>ty\<close> here.
\<close>

record pen_sample =
  rdy :: bool
  sw :: bool
  press :: nat
  cpress :: jsnum
  cx :: jsnum
  cy :: jsnum
  tx :: nat
  ty :: nat
  seq :: "nat option"
  time :: "nat option"

text \<open>
  A polyline element of the SVG: its stroke colour (the array joined into
  \<^verbatim>\<open>rgb(r,g,b)\<close>), its stroke width and its points in order.
\<close>

record polyline =
  stroke :: "nat list"
  stroke_width :: jsnum
  points :: "(jsnum \<times> jsnum) list"

text \<open>
  The HID device: whether it is opened, what \<^verbatim>\<open>receiveFeatureReport\<close> answers for
  a report id (\<open>None\<close> is a rejected promise), and whether \<^verbatim>\<open>sendFeatureReport\<close>
  fulfils for a report (\<open>False\<close> is a rejected promise).
\<close>

record hid_device =
  opened :: bool
  receiveFeatureReport :: "nat \<Rightarrow> dataview option"
  sendFeatureReport :: "nat \<Rightarrow> byte list \<Rightarrow> bool"

text \<open>The requests made to the device, in the order they are issued.\<close>

datatype io_event = SendFeature nat "byte list" | ReceiveFeature nat

text \<open>
  The driver object. \<open>svgElement\<close> holds the polyline children of the SVG element in
  document order; \<open>svgPolyLine\<close> is the reference to the polyline being extended, as
  its position among the children, or \<open>None\<close> for \<^verbatim>\<open>null\<close>. \<open>io\<close> records
  every request made to the device so far.
\<close>

record driver =
  config :: config
  device :: "hid_device option"
  signaturePath :: "pen_sample list"
  svgElement :: "polyline list"
  svgPolyLine :: "nat option"
  deviceIsSending :: bool
  io :: "io_event list"

definition isConnected :: "driver \<Rightarrow> bool" where
  "isConnected d = (case device d of None \<Rightarrow> False | Some dev \<Rightarrow> opened dev)"

section \<open>Decoding pen samples\<close>

text \<open>A numeric field of the configuration used in arithmetic.\<close>

definition cfg_num :: "nat option \<Rightarrow> jsnum" where
  "cfg_num v = to_number (map_option num_of_nat v)"

text \<open>
  The object literal of \<^verbatim>\<open>#onHidInputReport\<close>, for a report whose id is
  \<^verbatim>\<open>penData\<close> or \<^verbatim>\<open>penDataTiming\<close>. The reads happen in the order of the
  source, so the first read out of range decides the error.
\<close>

definition decodePacket :: "config \<Rightarrow> nat \<Rightarrow> dataview \<Rightarrow> error + pen_sample" where
  "decodePacket cfg reportId data =
     bindE (getUint16 data 0) (\<lambda>st.
     bindE (getUint16 data 2) (\<lambda>vx.
     bindE (getUint16 data 4) (\<lambda>vy.
     let packet =
        \<lparr> rdy = (st AND 0x8000 \<noteq> 0),
          sw = (st AND 0x1000 \<noteq> 0),
          press = unat (st AND 0x3FF),
          cpress = js_div (num_of_nat (unat (st AND 0x3FF))) (cfg_num (tabletMaxPressure cfg)),
          cx = js_round (js_div (num_of_nat (unat vx)) (to_number (scaleFactorX cfg))),
          cy = js_round (js_div (num_of_nat (unat vy)) (to_number (scaleFactorY cfg))),
          tx = unat vx,
          ty = unat vy,
          seq = None,
          time = None \<rparr>
     in if reportId = penDataTiming
        then bindE (getUint16 data 6) (\<lambda>t.
             bindE (getUint16 data 8) (\<lambda>s.
             Inr (packet\<lparr>time := Some (unat t), seq := Some (unat s)\<rparr>)))
        else Inr packet)))"

section \<open>Reading feature reports\<close>

text \<open>
  The outcome of an asynchronous method is what its promise settles to (a value, or the
  error it rejects with) together with the driver as the method left it: a field that
  was assigned before an exception stays assigned.
\<close>

type_synonym 'a outcome = "(error + 'a) \<times> driver"

text \<open>
  \<^verbatim>\<open>#readData\<close>: \<^verbatim>\<open>undefined\<close> (here \<open>Inr None\<close>) when the device is not
  connected, else what the device answers; a rejected promise is \<open>TransportError\<close>.
\<close>

definition readData :: "driver \<Rightarrow> nat \<Rightarrow> dataview option outcome" where
  "readData d reportId =
     (case device d of
        None \<Rightarrow> (Inr None, d)
      | Some dev \<Rightarrow>
          if \<not> opened dev then (Inr None, d)
          else (case receiveFeatureReport dev reportId of
                  None \<Rightarrow> (Inl TransportError, d\<lparr>io := io d @ [ReceiveFeature reportId]\<rparr>)
                | Some dv \<Rightarrow> (Inr (Some dv), d\<lparr>io := io d @ [ReceiveFeature reportId]\<rparr>)))"

text \<open>\<^verbatim>\<open>#sendData\<close>: nothing is sent when the device is not connected.\<close>

definition sendData :: "driver \<Rightarrow> nat \<Rightarrow> byte list \<Rightarrow> unit outcome" where
  "sendData d reportId data =
     (case device d of
        None \<Rightarrow> (Inr (), d)
      | Some dev \<Rightarrow>
          if \<not> opened dev then (Inr (), d)
          else (if sendFeatureReport dev reportId data then Inr () else Inl TransportError,
                d\<lparr>io := io d @ [SendFeature reportId data]\<rparr>))"

text \<open>A method call on the value a read returned: a \<open>TypeError\<close> on \<^verbatim>\<open>undefined\<close>.\<close>

definition dvUint8 :: "dataview option \<Rightarrow> nat \<Rightarrow> error + nat" where
  "dvUint8 dv off = (case dv of None \<Rightarrow> Inl TypeError | Some v \<Rightarrow> getUint8 v off)"







section \<open>Connecting\<close>















text \<open>The driver as its constructor leaves it.\<close>

definition new_driver :: driver where
  "new_driver =
     \<lparr> config = initial_config, device = None, signaturePath = [], svgElement = [],
       svgPolyLine = None, deviceIsSending = False, io = [] \<rparr>"

section \<open>Stroke reconstruction\<close>

text \<open>\<^verbatim>\<open>#clearSignatureData\<close>.\<close>

definition clearSignatureData :: "driver \<Rightarrow> driver" where
  "clearSignatureData d = d\<lparr>signaturePath := [], svgElement := [], svgPolyLine := None\<rparr>"

text \<open>\<^verbatim>\<open>#isInWritingArea\<close>.\<close>

definition isInWritingArea :: "config \<Rightarrow> jsnum \<Rightarrow> jsnum \<Rightarrow> bool" where
  "isInWritingArea cfg px py =
     (case writingArea cfg of
        None \<Rightarrow> True
      | Some (x1, y1, x2, y2) \<Rightarrow>
          if js_lt px (Num x1) \<or> js_gt px (Num x2) then False
          else if js_lt py (Num y1) \<or> js_gt py (Num y2) then False
          else True)"

text \<open>
  \<^verbatim>\<open>#startPolyLine\<close>. Its local variable \<^verbatim>\<open>strokeWidth\<close> comes from the
  pressure of the last sample of the stored path in writing mode 1, else from the pen
  width class (and stays 1 for any other class). Joining the pen colour throws when it
  is \<^verbatim>\<open>null\<close>. The new polyline is appended to the SVG element and becomes the
  current one.
\<close>

definition pressureWidth :: "jsnum \<Rightarrow> jsnum" where
  "pressureWidth lastPressure = js_add (Num 1) (js_mul lastPressure (Num (3 / 2)))"

definition fixedWidth :: "nat option \<Rightarrow> jsnum" where
  "fixedWidth pw =
     (case pw of
        None \<Rightarrow> Num 1
      | Some w \<Rightarrow>
          if w = 0 then Num (1 / 2)
          else if w = 1 then Num 2
          else if w = 2 then Num 3
          else if w = 3 then Num (9 / 2)
          else Num 1)"

definition strokeWidth :: "driver \<Rightarrow> jsnum" where
  "strokeWidth d =
     (if signaturePath d \<noteq> [] \<and> writingMode (config d) = Some 1
      then pressureWidth (cpress (last (signaturePath d)))
      else fixedWidth (penWidth (config d)))"

definition startPolyLine :: "driver \<Rightarrow> error + driver" where
  "startPolyLine d =
     (case penColor (config d) of
        None \<Rightarrow> Inl TypeError
      | Some c \<Rightarrow>
          Inr (d\<lparr>svgElement :=
                    svgElement d @ [\<lparr>stroke = c, stroke_width = strokeWidth d, points = []\<rparr>],
                  svgPolyLine := Some (length (svgElement d))\<rparr>))"

text \<open>\<^verbatim>\<open>#addPolyPoint\<close>: appends to the points of the current polyline.\<close>

definition addPolyPoint :: "driver \<Rightarrow> jsnum \<Rightarrow> jsnum \<Rightarrow> error + driver" where
  "addPolyPoint d px py =
     (case svgPolyLine d of
        None \<Rightarrow> Inl TypeError
      | Some i \<Rightarrow>
          Inr (d\<lparr>svgElement :=
                    (svgElement d)[i := (svgElement d ! i)
                       \<lparr>points := points (svgElement d ! i) @ [(px, py)]\<rparr>]\<rparr>))"

text \<open>The test \<^verbatim>\<open>Math.abs(point.cpress - prevPoint.cpress) > 0.02\<close>.\<close>

definition pressureJump :: "pen_sample \<Rightarrow> pen_sample \<Rightarrow> bool" where
  "pressureJump point prevPoint =
     js_gt (js_abs (js_sub (cpress point) (cpress prevPoint))) (Num (1 / 50))"

text \<open>The condition under which a sample is drawn.\<close>

definition inked :: "config \<Rightarrow> pen_sample \<Rightarrow> bool" where
  "inked cfg point =
     (rdy point \<and> sw point \<and> inkMode cfg = Some True
      \<and> isInWritingArea cfg (cx point) (cy point))"

text \<open>The body of the loop of \<^verbatim>\<open>#drawSignaturePathToCanvas\<close>, for the index \<open>i\<close>.\<close>

definition drawPoint :: "driver \<Rightarrow> nat \<Rightarrow> error + driver" where
  "drawPoint d i =
     (let point = signaturePath d ! i;
          prevPoint = (if 0 < i then Some (signaturePath d ! (i - 1)) else None)
      in if inked (config d) point then
           bindE (if svgPolyLine d = None then startPolyLine d
                  else if (case prevPoint of None \<Rightarrow> False | Some pp \<Rightarrow> pressureJump point pp)
                  then bindE (addPolyPoint d (cx point) (cy point)) startPolyLine
                  else Inr d)
             (\<lambda>d'. addPolyPoint d' (cx point) (cy point))
         else if svgPolyLine d \<noteq> None then Inr (d\<lparr>svgPolyLine := None\<rparr>)
         else Inr d)"

lemma startPolyLine_path: "startPolyLine d = Inr d' \<Longrightarrow> signaturePath d' = signaturePath d"
  by (auto simp: startPolyLine_def Let_def split: option.splits)

lemma addPolyPoint_path: "addPolyPoint d px py = Inr d' \<Longrightarrow> signaturePath d' = signaturePath d"
  by (auto simp: addPolyPoint_def split: option.splits)

lemma drawPoint_path: "drawPoint d i = Inr d' \<Longrightarrow> signaturePath d' = signaturePath d"
  by (auto simp: drawPoint_def Let_def bindE_def
      dest!: startPolyLine_path addPolyPoint_path split: if_splits sum.splits)

text \<open>\<^verbatim>\<open>#drawSignaturePathToCanvas(fromOffset)\<close>.\<close>

function drawSignaturePathToCanvas :: "driver \<Rightarrow> nat \<Rightarrow> error + driver" where
  "drawSignaturePathToCanvas d i =
     (if i < length (signaturePath d)
      then (case drawPoint d i of
              Inl e \<Rightarrow> Inl e
            | Inr d' \<Rightarrow> drawSignaturePathToCanvas d' (Suc i))
      else Inr d)"
  by pat_completeness auto
termination
  by (relation "measure (\<lambda>(d, i). length (signaturePath d) - i)")
     (auto dest: drawPoint_path)

declare drawSignaturePathToCanvas.simps [simp del]

text \<open>
  \<^verbatim>\<open>#onHidInputReport\<close>: a report with another id is ignored; else the packet is
  decoded, pushed on the stored path and drawn from its own index. The listeners of the
  \<^verbatim>\<open>penData\<close> event are outside the model.
\<close>

definition pushAndDraw :: "driver \<Rightarrow> pen_sample \<Rightarrow> error + driver" where
  "pushAndDraw d packet =
     (let d1 = d\<lparr>signaturePath := signaturePath d @ [packet]\<rparr>
      in drawSignaturePathToCanvas d1 (length (signaturePath d1) - 1))"

definition onHidInputReport :: "driver \<Rightarrow> nat \<Rightarrow> dataview \<Rightarrow> error + driver" where
  "onHidInputReport d reportId data =
     (if reportId = penData \<or> reportId = penDataTiming
      then bindE (decodePacket (config d) reportId data) (pushAndDraw d)
      else Inr d)"

text \<open>
  The two ways of computing the strokes of a sample log: \<open>incremental\<close> handles the
  samples one by one as they arrive, \<open>replay\<close> draws the whole stored log from offset 0
  into an empty SVG element.
\<close>

fun incremental :: "driver \<Rightarrow> pen_sample list \<Rightarrow> error + driver" where
  "incremental d [] = Inr d"
| "incremental d (p # ps) = bindE (pushAndDraw d p) (\<lambda>d'. incremental d' ps)"

definition replay :: "driver \<Rightarrow> pen_sample list \<Rightarrow> error + driver" where
  "replay d samples = drawSignaturePathToCanvas ((clearSignatureData d)\<lparr>signaturePath := samples\<rparr>) 0"

section \<open>Setters\<close>

text \<open>
  \<^verbatim>\<open>setPenColorAndWidth\<close>. The colour argument is documented as a string in
  \<^verbatim>\<open>#RRGGBB\<close> format; it is taken here as the three numbers it converts to. The
  width is any integer. The array \<^verbatim>\<open>c\<close> goes out as a \<^verbatim>\<open>Uint8Array\<close>, so each
  element is reduced modulo 256.
\<close>

definition setPenColorAndWidth :: "driver \<Rightarrow> nat \<times> nat \<times> nat \<Rightarrow> int \<Rightarrow> unit outcome" where
  "setPenColorAndWidth d color w =
     (if \<not> isConnected d then (Inl NotConnected, d)
      else if w \<notin> set [0, 1, 2, 3] then (Inl InvalidParameter, d)
      else
        (let c = (case color of (r, g, b) \<Rightarrow> [r, g, b]) @ [nat w]
         in case sendData d cmdPenColorAndWidth (map of_nat c) of
              (Inl e, d') \<Rightarrow> (Inl e, d')
            | (Inr _, d') \<Rightarrow>
                (Inr (), d'\<lparr>config := (config d')
                    \<lparr>penColor := Some [c ! 0, c ! 1, c ! 2], penWidth := Some (c ! 3)\<rparr>\<rparr>)))"

text \<open>
  \<^verbatim>\<open>setBrightness\<close>: the device is read first, and nothing is written (nor stored)
  when it already has the value.
\<close>

definition setBrightness :: "driver \<Rightarrow> int \<Rightarrow> unit outcome" where
  "setBrightness d intensity =
     (if \<not> isConnected d then (Inl NotConnected, d)
      else if intensity \<notin> set [0, 1, 2, 3] then (Inl InvalidParameter, d)
      else
        (case readData d cmdBrightness of
           (Inl e, d') \<Rightarrow> (Inl e, d')
         | (Inr dv, d') \<Rightarrow>
             (case dvUint8 dv 1 of
                Inl e \<Rightarrow> (Inl e, d')
              | Inr v \<Rightarrow>
                  if int v = intensity then (Inr (), d')
                  else (case sendData d' cmdBrightness [of_int intensity, 0] of
                          (Inl e, d'') \<Rightarrow> (Inl e, d'')
                        | (Inr _, d'') \<Rightarrow>
                            (Inr (), d''\<lparr>config := (config d'')
                                \<lparr>brightness := Some (nat intensity)\<rparr>\<rparr>)))))"

text \<open>\<^verbatim>\<open>setWritingMode\<close>.\<close>

definition setWritingMode :: "driver \<Rightarrow> int \<Rightarrow> unit outcome" where
  "setWritingMode d mode =
     (if \<not> isConnected d then (Inl NotConnected, d)
      else if mode \<notin> set [0, 1] then (Inl InvalidParameter, d)
      else
        (case sendData d cmdWritingMode [of_int mode] of
           (Inl e, d') \<Rightarrow> (Inl e, d')
         | (Inr _, d') \<Rightarrow>
             (Inr (), d'\<lparr>config := (config d')\<lparr>writingMode := Some (nat mode)\<rparr>\<rparr>)))"

section \<open>Image upload\<close>

text \<open>
  \<^verbatim>\<open>#splitToBulks\<close>. Each bulk is an array of \<open>bulkSize\<close> slots filled from the
  image; a slot past the end of the image holds \<^verbatim>\<open>undefined\<close> (\<open>None\<close>). The outer
  loop runs while \<^verbatim>\<open>i < Math.ceil(arr.length / bulkSize)\<close>; with a bulk size of 0 and
  a non-empty image that bound is infinite and the loop does not end, which is the
  result \<open>None\<close>.
\<close>

definition bulk :: "'a list \<Rightarrow> nat \<Rightarrow> nat \<Rightarrow> 'a option list" where
  "bulk arr bulkSize i =
     map (\<lambda>k. if k < length arr then Some (arr ! k) else None) [i * bulkSize ..< (i + 1) * bulkSize]"

partial_function (option) splitLoop ::
  "'a list \<Rightarrow> nat \<Rightarrow> nat \<Rightarrow> 'a option list list \<Rightarrow> 'a option list list option" where
  "splitLoop arr bulkSize i bulks =
     (if js_lt (num_of_nat i) (js_ceil (js_div (num_of_nat (length arr)) (num_of_nat bulkSize)))
      then splitLoop arr bulkSize (Suc i) (bulks @ [bulk arr bulkSize i])
      else Some bulks)"

definition splitToBulks :: "'a list \<Rightarrow> nat \<Rightarrow> 'a option list list option" where
  "splitToBulks arr bulkSize = splitLoop arr bulkSize 0 []"

text \<open>
  The data packet of a bulk, \<^verbatim>\<open>new Uint8Array([e.length, 0].concat(e))\<close>: the length
  of the array, a zero, and the slots, \<^verbatim>\<open>undefined\<close> becoming 0.
\<close>

definition dataPacket :: "byte option list \<Rightarrow> byte list" where
  "dataPacket e = of_nat (length e) # 0 # map (\<lambda>v. case v of None \<Rightarrow> 0 | Some b \<Rightarrow> b) e"

text \<open>
  \<^verbatim>\<open>setImage\<close> is asynchronous: it runs until it waits for a promise, and is resumed
  when that promise settles; other calls may run in between. A call is therefore a
  state machine. Its states are the places where it is suspended: \<open>Entry\<close> before it
  has run at all, \<open>Polling n\<close> in \<^verbatim>\<open>await this.#wait(500)\<close> with \<^verbatim>\<open>tryCnt\<close> equal
  to \<open>n\<close>, \<open>AwaitStart\<close> and \<open>AwaitEnd\<close> in the awaited sends of the start and the end
  packet (holding what the send settles to), and the final states: returned, thrown,
  or \<open>Hung\<close> in a loop that does not end.
\<close>

datatype call_state =
    Entry "byte list"
  | Polling nat "byte list"
  | AwaitStart "error + unit" "byte option list list"
  | AwaitEnd "error + unit"
  | Returned
  | Thrown error
  | Hung

text \<open>
  What a call does, in order: \<open>Send\<close> is a call of \<^verbatim>\<open>sendFeatureReport\<close>,
  \<open>Settled r\<close> the resumption of the call after the awaited send of report \<open>r\<close> has
  settled, \<open>Wait ms\<close> the start of a timer.
\<close>

datatype action = Send nat "byte list" | Settled nat | Wait nat

record system =
  drv :: driver
  calls :: "call_state list"
  trace :: "(nat \<times> action) list"

text \<open>A send by the call \<open>c\<close>: \<^verbatim>\<open>#sendData\<close>, noted in the trace when it reaches the device.\<close>

definition callSend :: "nat \<Rightarrow> nat \<Rightarrow> byte list \<Rightarrow> system \<Rightarrow> (error + unit) \<times> system" where
  "callSend c reportId data s =
     (case sendData (drv s) reportId data of
        (r, d') \<Rightarrow>
          (r, s\<lparr>drv := d',
                 trace := (if isConnected (drv s) then trace s @ [(c, Send reportId data)]
                           else trace s)\<rparr>))"

text \<open>
  The head of the polling loop with \<^verbatim>\<open>tryCnt = n\<close>, up to the next suspension:
  while the flag is set, wait (at most 20 times) or throw; else take the flag, split the
  image and send the start packet.
\<close>

definition enterLoop :: "nat \<Rightarrow> nat \<Rightarrow> byte list \<Rightarrow> system \<Rightarrow> system" where
  "enterLoop c n imageData s =
     (if deviceIsSending (drv s) then
        (if n < 20
         then s\<lparr>calls := (calls s)[c := Polling (Suc n) imageData],
                 trace := trace s @ [(c, Wait 500)]\<rparr>
         else s\<lparr>calls := (calls s)[c := Thrown Busy]\<rparr>)
      else
        (let s1 = s\<lparr>drv := (drv s)\<lparr>deviceIsSending := True\<rparr>\<rparr>
         in case splitToBulks imageData (chunkSize (config (drv s1))) of
              None \<Rightarrow> s1\<lparr>calls := (calls s1)[c := Hung]\<rparr>
            | Some imageDataBulks \<Rightarrow>
                (case callSend c writeImageStart [of_nat (imageFormat24BGR (config (drv s1)))] s1 of
                   (r, s2) \<Rightarrow> s2\<lparr>calls := (calls s2)[c := AwaitStart r imageDataBulks]\<rparr>)))"

text \<open>
  \<^verbatim>\<open>imageDataBulks.forEach(async (e) => { await this.#sendData(...) })\<close>: each callback
  runs up to its own \<^verbatim>\<open>await\<close>, that is, it calls \<^verbatim>\<open>sendFeatureReport\<close>, and
  \<^verbatim>\<open>forEach\<close> goes on to the next element at once. What the sends settle to is
  dropped.
\<close>

fun forEachBulk :: "nat \<Rightarrow> byte option list list \<Rightarrow> system \<Rightarrow> system" where
  "forEachBulk c [] s = s"
| "forEachBulk c (e # es) s = forEachBulk c es (snd (callSend c writeImageData (dataPacket e) s))"

text \<open>One run of the call \<open>c\<close>, from where it is suspended to its next suspension.\<close>

definition resume :: "nat \<Rightarrow> system \<Rightarrow> system" where
  "resume c s =
     (if c < length (calls s) then
        (case calls s ! c of
           Entry imageData \<Rightarrow>
             if \<not> isConnected (drv s) then s\<lparr>calls := (calls s)[c := Thrown NotConnected]\<rparr>
             else if length imageData
                     \<noteq> case_option 0 id (width (config (drv s)))
                       * case_option 0 id (height (config (drv s))) * 3
             then s\<lparr>calls := (calls s)[c := Thrown InvalidParameter]\<rparr>
             else enterLoop c 0 imageData s
         | Polling n imageData \<Rightarrow> enterLoop c n imageData s
         | AwaitStart r imageDataBulks \<Rightarrow>
             (case r of
                Inl e \<Rightarrow> s\<lparr>calls := (calls s)[c := Thrown e]\<rparr>
              | Inr _ \<Rightarrow>
                  (let s1 = s\<lparr>trace := trace s @ [(c, Settled writeImageStart)]\<rparr>;
                       s2 = forEachBulk c imageDataBulks s1
                   in case callSend c writeImageEnd [0] s2 of
                        (r', s3) \<Rightarrow> s3\<lparr>calls := (calls s3)[c := AwaitEnd r']\<rparr>))
         | AwaitEnd r \<Rightarrow>
             (case r of
                Inl e \<Rightarrow> s\<lparr>calls := (calls s)[c := Thrown e]\<rparr>
              | Inr _ \<Rightarrow>
                  s\<lparr>drv := (clearSignatureData (drv s))\<lparr>deviceIsSending := False\<rparr>,
                    calls := (calls s)[c := Returned],
                    trace := trace s @ [(c, Settled writeImageEnd)]\<rparr>)
         | Returned \<Rightarrow> s
         | Thrown e \<Rightarrow> s
         | Hung \<Rightarrow> s)
      else s)"

text \<open>
  A schedule names the calls in the order in which they run; \<open>run\<close> follows it. The
  system starts with every call of \<^verbatim>\<open>setImage\<close> at its entry.
\<close>

fun run :: "nat list \<Rightarrow> system \<Rightarrow> system" where
  "run [] s = s"
| "run (c # cs) s = run cs (resume c s)"

definition start_system :: "driver \<Rightarrow> byte list list \<Rightarrow> system" where
  "start_system d images = \<lparr>drv = d, calls = map Entry images, trace = []\<rparr>"

text \<open>
  A single call of \<^verbatim>\<open>setImage\<close> with nothing else running: it is entered, then
  resumed when the start packet has settled, then when the end packet has settled.
\<close>

definition setImage :: "driver \<Rightarrow> byte list \<Rightarrow> system" where
  "setImage d imageData = run [0, 0, 0] (start_system d [imageData])"

section \<open>Notions used in the statements\<close>


text \<open>The number of bulks of an image: \<open>ceil(length / bulkSize)\<close>.\<close>

definition bulkCount :: "nat \<Rightarrow> nat \<Rightarrow> nat" where
  "bulkCount len bulkSize = nat \<lceil>(of_nat len :: rat) / of_nat bulkSize\<rceil>"

text \<open>The number of slots of a bulk that hold a byte of the image.\<close>

definition occupied :: "'a option list \<Rightarrow> nat" where
  "occupied e = length (filter (\<lambda>v. v \<noteq> None) e)"




text \<open>The report ids that the negotiation reads, in order.\<close>

definition negotiation_reads :: "nat list" where
  "negotiation_reads = [capability, information, cmdESerial, cmdBackgroundColor,
     cmdPenColorAndWidth, cmdBrightness, cmdInkMode, cmdWritingMode, cmdWritingArea]"

text \<open>
  A device that answers like a pad whose capability report gives a tablet of 20000 by
  12000 units, a maximal pressure of 1024 and a display of 800 by 480 pixels, with ink
  enabled, writing mode 1 and the whole display as writing area; and the driver
  connected to it.
\<close>

definition stu_device :: hid_device where
  "stu_device =
     \<lparr> opened = False,
       receiveFeatureReport = (\<lambda>reportId.
         if reportId = capability
           then Some [0x09, 0x4E, 0x20, 0x2E, 0xE0, 0x04, 0x00, 0x03, 0x20, 0x01, 0xE0, 0xC8]
         else if reportId = information
           then Some [0x08, 0x53, 0x54, 0x55, 0x2D, 0x35, 0x34, 0x30, 0x01, 0x00, 0x00, 0x03]
         else if reportId = cmdESerial then Some [0x0F, 0x41, 0x31, 0x00]
         else if reportId = cmdBackgroundColor then Some [0x2E, 0xFF, 0xFF, 0xFF]
         else if reportId = cmdPenColorAndWidth then Some [0x2D, 0x00, 0x00, 0x00, 0x01]
         else if reportId = cmdBrightness then Some [0x2B, 0x03, 0x00]
         else if reportId = cmdInkMode then Some [0x21, 0x01]
         else if reportId = cmdWritingMode then Some [0x0E, 0x01]
         else if reportId = cmdWritingArea
           then Some [0x2A, 0x00, 0x00, 0x00, 0x00, 0x20, 0x03, 0xE0, 0x01]
         else None),
       sendFeatureReport = (\<lambda>reportId data. True) \<rparr>"

definition stu_config :: config where
  "stu_config =
     \<lparr> chunkSize = 253, imageFormat24BGR = 4, width = Some 800, height = Some 480,
       scaleFactorX = Some (Num 25), scaleFactorY = Some (Num 25), tabletMaxPressure = Some 1024,
       maxReportRate = Some 200, tabletMaxX = Some 20000, tabletMaxY = Some 12000,
       penColor = Some [0, 0, 0], penWidth = Some 1, backgroundColor = Some [255, 255, 255],
       brightness = Some 3, inkMode = Some True, writingMode = Some 1,
       writingArea = Some (0, 0, 800, 480),
       deviceName = Some ''STU-540'', firmware = Some ''1.0.0.3'', eSerial = Some ''A1'' \<rparr>"

definition stu_driver :: driver where
  "stu_driver =
     \<lparr> config = stu_config, device = Some (stu_device\<lparr>opened := True\<rparr>), signaturePath = [],
       svgElement = [], svgPolyLine = None, deviceIsSending = False,
       io = map ReceiveFeature negotiation_reads \<rparr>"


text \<open>
  Three pen reports at the tablet position (5000, 2500): pen down with raw pressure 512,
  pen lifted but still in proximity, and a report whose status word has the contact bit
  set and the proximity bit clear. Each comes with the sample it decodes to.
\<close>

definition report_down :: dataview where
  "report_down = [0x92, 0x00, 0x13, 0x88, 0x09, 0xC4]"

definition report_up :: dataview where
  "report_up = [0x80, 0x00, 0x13, 0x88, 0x09, 0xC4]"

definition report_far :: dataview where
  "report_far = [0x12, 0x00, 0x13, 0x88, 0x09, 0xC4]"

definition sample_down :: pen_sample where
  "sample_down =
     \<lparr> rdy = True, sw = True, press = 512, cpress = Num (1 / 2), cx = Num 200, cy = Num 100,
       tx = 5000, ty = 2500, seq = None, time = None \<rparr>"

definition sample_up :: pen_sample where
  "sample_up =
     \<lparr> rdy = True, sw = False, press = 0, cpress = Num 0, cx = Num 200, cy = Num 100,
       tx = 5000, ty = 2500, seq = None, time = None \<rparr>"

definition sample_far :: pen_sample where
  "sample_far =
     \<lparr> rdy = False, sw = True, press = 512, cpress = Num (1 / 2), cx = Num 200, cy = Num 100,
       tx = 5000, ty = 2500, seq = None, time = None \<rparr>"

section \<open>Evaluation of the device and its reports\<close>

lemmas command_ids = penData_def information_def capability_def cmdWritingMode_def
  cmdESerial_def cmdClearScreen_def cmdInkMode_def writeImageStart_def writeImageData_def
  writeImageEnd_def cmdWritingArea_def cmdBrightness_def cmdBackgroundColor_def
  cmdPenColorAndWidth_def penDataTiming_def

lemma js_round_of_int: "js_round (Num (of_int k)) = Num (of_int k)"
proof -
  have "\<lfloor>(of_int k :: rat) + 1 / 2\<rfloor> = k"
    by (rule floor_unique) simp_all
  then show ?thesis by (simp add: js_round.simps)
qed

lemma js_round_numeral [simp]: "js_round (Num (numeral n)) = Num (numeral n)"
  using js_round_of_int [of "numeral n"] by simp

lemma js_round_zero [simp]: "js_round (Num 0) = Num 0"
  using js_round_of_int [of 0] by simp



lemma decode_down: "decodePacket stu_config penData report_down = Inr sample_down"
  by (simp add: decodePacket_def getUint16_def bindE_def stu_config_def sample_down_def
      report_down_def cfg_num_def num_of_nat_def command_ids)

lemma decode_up: "decodePacket stu_config penData report_up = Inr sample_up"
  by (simp add: decodePacket_def getUint16_def bindE_def stu_config_def sample_up_def
      report_up_def cfg_num_def num_of_nat_def command_ids)

lemma decode_far: "decodePacket stu_config penData report_far = Inr sample_far"
  by (simp add: decodePacket_def getUint16_def bindE_def stu_config_def sample_far_def
      report_far_def cfg_num_def num_of_nat_def command_ids)


lemma stu_driver_fields [simp]:
  "config stu_driver = stu_config" "signaturePath stu_driver = []" "svgElement stu_driver = []"
  "svgPolyLine stu_driver = None" "deviceIsSending stu_driver = False"
  "device stu_driver = Some (stu_device\<lparr>opened := True\<rparr>)"
  by (simp_all add: stu_driver_def)

lemma stu_config_fields [simp]:
  "penColor stu_config = Some [0, 0, 0]" "writingMode stu_config = Some 1"
  "inkMode stu_config = Some True" "writingArea stu_config = Some (0, 0, 800, 480)"
  "penWidth stu_config = Some 1" "chunkSize stu_config = 253" "imageFormat24BGR stu_config = 4"
  "width stu_config = Some 800" "height stu_config = Some 480"
  by (simp_all add: stu_config_def)


section \<open>Stroke reconstruction: one sample at a time\<close>

lemma draw_last:
  assumes "signaturePath d \<noteq> []" "i = length (signaturePath d) - 1"
  shows "drawSignaturePathToCanvas d i = drawPoint d i"
proof (cases "drawPoint d i")
  case (Inl e)
  then show ?thesis using assms by (subst drawSignaturePathToCanvas.simps) simp
next
  case (Inr d')
  then have p: "signaturePath d' = signaturePath d" by (rule drawPoint_path)
  have "drawSignaturePathToCanvas d' (Suc i) = Inr d'"
    using assms p by (subst drawSignaturePathToCanvas.simps) simp
  then show ?thesis using assms Inr by (subst drawSignaturePathToCanvas.simps) simp
qed

lemma pushAndDraw_drawPoint:
  "pushAndDraw d p = drawPoint (d\<lparr>signaturePath := signaturePath d @ [p]\<rparr>) (length (signaturePath d))"
  by (simp add: pushAndDraw_def Let_def draw_last)

lemma pushAndDraw_not_inked:
  "\<not> inked (config d) p \<Longrightarrow>
   pushAndDraw d p = Inr (d\<lparr>signaturePath := signaturePath d @ [p], svgPolyLine := None\<rparr>)"
  by (cases "svgPolyLine d") (simp_all add: pushAndDraw_drawPoint drawPoint_def Let_def)

text \<open>
  The point of a sample appended to a polyline, and the polyline started for a sample
  that has just been pushed on the path.
\<close>

definition addPoint :: "pen_sample \<Rightarrow> polyline \<Rightarrow> polyline" where
  "addPoint p pl = pl\<lparr>points := points pl @ [(cx p, cy p)]\<rparr>"

definition newLine :: "driver \<Rightarrow> nat list \<Rightarrow> pen_sample \<Rightarrow> polyline" where
  "newLine d c p =
     \<lparr> stroke = c,
       stroke_width = strokeWidth (d\<lparr>signaturePath := signaturePath d @ [p]\<rparr>),
       points = [(cx p, cy p)] \<rparr>"

lemma pushAndDraw_start:
  assumes "inked (config d) p" "svgPolyLine d = None" "penColor (config d) = Some c"
  shows "pushAndDraw d p =
     Inr (d\<lparr>signaturePath := signaturePath d @ [p],
            svgElement := svgElement d @ [newLine d c p],
            svgPolyLine := Some (length (svgElement d))\<rparr>)"
  using assms
  by (simp add: pushAndDraw_drawPoint drawPoint_def Let_def bindE_def startPolyLine_def
      addPolyPoint_def strokeWidth_def newLine_def)

lemma pushAndDraw_continue:
  assumes "inked (config d) p" "svgPolyLine d = Some i"
    "signaturePath d = [] \<or> \<not> pressureJump p (last (signaturePath d))"
  shows "pushAndDraw d p =
     Inr (d\<lparr>signaturePath := signaturePath d @ [p],
            svgElement := (svgElement d)[i := addPoint p (svgElement d ! i)]\<rparr>)"
  using assms
  by (auto simp: pushAndDraw_drawPoint drawPoint_def Let_def bindE_def
      addPolyPoint_def addPoint_def nth_append last_conv_nth)

lemma pushAndDraw_jump:
  assumes "inked (config d) p" "svgPolyLine d = Some i" "signaturePath d \<noteq> []"
    "pressureJump p (last (signaturePath d))" "penColor (config d) = Some c"
  shows "pushAndDraw d p =
     Inr (d\<lparr>signaturePath := signaturePath d @ [p],
            svgElement := (svgElement d)[i := addPoint p (svgElement d ! i)] @ [newLine d c p],
            svgPolyLine := Some (length (svgElement d))\<rparr>)"
  using assms
  by (simp add: pushAndDraw_drawPoint drawPoint_def Let_def bindE_def startPolyLine_def
      addPolyPoint_def strokeWidth_def newLine_def addPoint_def nth_append
      last_conv_nth list_update_append)

lemma pushAndDraw_start_error:
  assumes "inked (config d) p" "svgPolyLine d = None" "penColor (config d) = None"
  shows "pushAndDraw d p = Inl TypeError"
  using assms
  by (simp add: pushAndDraw_drawPoint drawPoint_def Let_def bindE_def startPolyLine_def)

lemma pushAndDraw_jump_error:
  assumes "inked (config d) p" "svgPolyLine d = Some i" "signaturePath d \<noteq> []"
    "pressureJump p (last (signaturePath d))" "penColor (config d) = None"
  shows "pushAndDraw d p = Inl TypeError"
  using assms
  by (simp add: pushAndDraw_drawPoint drawPoint_def Let_def bindE_def startPolyLine_def
      addPolyPoint_def nth_append last_conv_nth)

lemma drawPoint_config: "drawPoint d i = Inr d' \<Longrightarrow> config d' = config d"
  by (auto simp: drawPoint_def Let_def bindE_def startPolyLine_def addPolyPoint_def
      split: if_splits sum.splits option.splits)

lemma pushAndDraw_keeps:
  "pushAndDraw d p = Inr d' \<Longrightarrow> signaturePath d' = signaturePath d @ [p] \<and> config d' = config d"
  unfolding pushAndDraw_drawPoint
  by (frule drawPoint_path, drule drawPoint_config) simp

lemma incremental_keeps:
  "incremental d ps = Inr d' \<Longrightarrow> signaturePath d' = signaturePath d @ ps \<and> config d' = config d"
proof (induction ps arbitrary: d)
  case Nil
  then show ?case by simp
next
  case (Cons p ps)
  then obtain d1 where s: "pushAndDraw d p = Inr d1" and r: "incremental d1 ps = Inr d'"
    by (auto simp: bindE_def split: sum.splits)
  show ?case using pushAndDraw_keeps [OF s] Cons.IH [OF r] by simp
qed



section \<open>A sample without proximity\<close>

text \<open>
  Claim C10. A sample is drawn only when its proximity flag is set as well as its
  contact flag: for a sample with contact but without proximity, whatever the ink mode
  and the writing area, the sample is stored, the current polyline (if any) is closed
  and the polylines of the SVG element stay as they are, so no point is added.
\<close>

theorem no_proximity_no_point:
  "sw p \<Longrightarrow> \<not> rdy p \<Longrightarrow>
   pushAndDraw d p = Inr (d\<lparr>signaturePath := signaturePath d @ [p], svgPolyLine := None\<rparr>)"
  by (rule pushAndDraw_not_inked) (simp add: inked_def)

text \<open>
  The pad after one pen-down report, with a polyline open, then receives the report
  with contact and without proximity: ink is on and the position is inside the writing
  area, and still the polyline is closed with its single point.
\<close>

definition stu_pen_down :: driver where
  "stu_pen_down =
     stu_driver\<lparr>signaturePath := [sample_down],
       svgElement := [\<lparr>stroke = [0, 0, 0], stroke_width = Num (7 / 4), points = [(Num 200, Num 100)]\<rparr>],
       svgPolyLine := Some 0\<rparr>"


theorem no_proximity_no_point_witness:
  "sw sample_far \<and> \<not> rdy sample_far \<and> inkMode (config stu_pen_down) = Some True
   \<and> isInWritingArea (config stu_pen_down) (cx sample_far) (cy sample_far)
   \<and> onHidInputReport stu_pen_down penData report_far =
       Inr (stu_pen_down\<lparr>signaturePath := [sample_down, sample_far], svgPolyLine := None\<rparr>)"
proof -
  have c: "config stu_pen_down = stu_config"
    by (simp add: stu_pen_down_def)
  have "pushAndDraw stu_pen_down sample_far =
      Inr (stu_pen_down\<lparr>signaturePath := signaturePath stu_pen_down @ [sample_far], svgPolyLine := None\<rparr>)"
    by (rule no_proximity_no_point) (simp_all add: sample_far_def)
  then show ?thesis
    by (simp add: onHidInputReport_def c decode_far bindE_def)
      (simp add: stu_pen_down_def sample_far_def isInWritingArea_def js_gt_def)
qed

section \<open>The writing area\<close>

text \<open>Every point of every polyline lies in the writing area of the configuration.\<close>

definition points_in_area :: "config \<Rightarrow> polyline list \<Rightarrow> bool" where
  "points_in_area cfg pls =
     (\<forall>pl\<in>set pls. \<forall>(px, py)\<in>set (points pl). isInWritingArea cfg px py)"

lemma points_in_area_update:
  assumes "points_in_area cfg pls" "isInWritingArea cfg (cx p) (cy p)"
  shows "points_in_area cfg (pls[i := addPoint p (pls ! i)])"
proof (cases "i < length pls")
  case True
  have sub: "set (pls[i := addPoint p (pls ! i)]) \<subseteq> insert (addPoint p (pls ! i)) (set pls)"
    by (rule set_update_subset_insert)
  have new: "\<forall>(px, py)\<in>set (points (addPoint p (pls ! i))). isInWritingArea cfg px py"
    using assms True by (auto simp: points_in_area_def addPoint_def)
  show ?thesis
    unfolding points_in_area_def
  proof
    fix pl
    assume "pl \<in> set (pls[i := addPoint p (pls ! i)])"
    then have "pl = addPoint p (pls ! i) \<or> pl \<in> set pls" using sub by blast
    then show "\<forall>(px, py)\<in>set (points pl). isInWritingArea cfg px py"
      using new assms(1) by (auto simp: points_in_area_def)
  qed
next
  case False
  then have "pls[i := addPoint p (pls ! i)] = pls" by (simp add: list_update_beyond)
  then show ?thesis using assms(1) by simp
qed

lemma points_in_area_snoc:
  assumes "points_in_area cfg pls" "isInWritingArea cfg (cx p) (cy p)"
  shows "points_in_area cfg (pls @ [newLine d c p])"
  using assms by (auto simp: points_in_area_def newLine_def)

lemma pushAndDraw_in_area:
  assumes "pushAndDraw d p = Inr d'" "points_in_area (config d) (svgElement d)"
  shows "points_in_area (config d) (svgElement d')"
proof (cases "inked (config d) p")
  case False
  then show ?thesis using assms by (auto simp: pushAndDraw_not_inked)
next
  case True
  then have a: "isInWritingArea (config d) (cx p) (cy p)" by (simp add: inked_def)
  show ?thesis
  proof (cases "svgPolyLine d")
    case None
    show ?thesis
    proof (cases "penColor (config d)")
      case no: None
      then have "pushAndDraw d p = Inl TypeError"
        using True None by (rule pushAndDraw_start_error [rotated 2])
      then show ?thesis using assms(1) by simp
    next
      case (Some c)
      then show ?thesis
        using assms True None a by (auto simp: pushAndDraw_start points_in_area_snoc)
    qed
  next
    case (Some i)
    show ?thesis
    proof (cases "signaturePath d = [] \<or> \<not> pressureJump p (last (signaturePath d))")
      case same: True
      then show ?thesis
        using assms True Some a by (auto simp: pushAndDraw_continue points_in_area_update)
    next
      case jump: False
      show ?thesis
      proof (cases "penColor (config d)")
        case None
        have "pushAndDraw d p = Inl TypeError"
          by (rule pushAndDraw_jump_error) (use True Some jump None in auto)
        then show ?thesis using assms(1) by simp
      next
        case c: (Some c)
        then show ?thesis
          using assms True Some a jump
          by (auto simp: pushAndDraw_jump points_in_area_update points_in_area_snoc)
      qed
    qed
  qed
qed

lemma incremental_in_area:
  assumes "incremental d ps = Inr d'" "points_in_area (config d) (svgElement d)"
  shows "points_in_area (config d) (svgElement d')"
  using assms
proof (induction ps arbitrary: d)
  case Nil
  then show ?case by simp
next
  case (Cons p ps)
  then obtain d1 where s: "pushAndDraw d p = Inr d1" and r: "incremental d1 ps = Inr d'"
    by (auto simp: bindE_def split: sum.splits)
  have "config d1 = config d" using pushAndDraw_keeps [OF s] by simp
  moreover have "points_in_area (config d) (svgElement d1)"
    using pushAndDraw_in_area [OF s Cons.prems(2)] .
  ultimately show ?case using Cons.IH [OF r] by simp
qed

lemma isInWritingArea_inclusive:
  "writingArea cfg = Some (x1, y1, x2, y2) \<Longrightarrow>
   isInWritingArea cfg (Num a) (Num b) = (x1 \<le> a \<and> a \<le> x2 \<and> y1 \<le> b \<and> b \<le> y2)"
  by (auto simp: isInWritingArea_def js_gt_def)

text \<open>
  Claim C8. A sample whose display coordinates are outside the writing area is stored
  and closes the current polyline, and the polylines keep their points; every point of
  the polylines computed from a sample log lies in the writing area. For finite
  coordinates the test holds exactly when the point is between the bounds, the bounds
  included, on both axes; without a writing area it holds for every point.
\<close>

theorem writing_area_clipping:
  "(\<not> isInWritingArea (config d) (cx p) (cy p) \<longrightarrow>
      pushAndDraw d p = Inr (d\<lparr>signaturePath := signaturePath d @ [p], svgPolyLine := None\<rparr>))
   \<and> (incremental (clearSignatureData d) samples = Inr d' \<longrightarrow>
        (\<forall>pl\<in>set (svgElement d'). \<forall>(px, py)\<in>set (points pl). isInWritingArea (config d) px py))
   \<and> (writingArea cfg = Some (x1, y1, x2, y2) \<longrightarrow>
        isInWritingArea cfg (Num a) (Num b) = (x1 \<le> a \<and> a \<le> x2 \<and> y1 \<le> b \<and> b \<le> y2))
   \<and> (writingArea cfg' = None \<longrightarrow> isInWritingArea cfg' qx qy)"
proof (intro conjI impI)
  assume "\<not> isInWritingArea (config d) (cx p) (cy p)"
  then have "\<not> inked (config d) p" by (simp add: inked_def)
  then show "pushAndDraw d p = Inr (d\<lparr>signaturePath := signaturePath d @ [p], svgPolyLine := None\<rparr>)"
    by (rule pushAndDraw_not_inked)
next
  assume r: "incremental (clearSignatureData d) samples = Inr d'"
  have "points_in_area (config (clearSignatureData d)) (svgElement (clearSignatureData d))"
    by (simp add: points_in_area_def clearSignatureData_def)
  then have "points_in_area (config (clearSignatureData d)) (svgElement d')"
    by (rule incremental_in_area [OF r])
  then show "\<forall>pl\<in>set (svgElement d'). \<forall>(px, py)\<in>set (points pl). isInWritingArea (config d) px py"
    by (simp add: points_in_area_def clearSignatureData_def)
next
  assume "writingArea cfg = Some (x1, y1, x2, y2)"
  then show "isInWritingArea cfg (Num a) (Num b) = (x1 \<le> a \<and> a \<le> x2 \<and> y1 \<le> b \<and> b \<le> y2)"
    by (rule isInWritingArea_inclusive)
next
  assume "writingArea cfg' = None"
  then show "isInWritingArea cfg' qx qy" by (simp add: isInWritingArea_def)
qed

text \<open>
  The pad with the writing area set to (100, 100)-(200, 200). The pen-down sample at
  pixel (200, 100) is on the boundary and is drawn; the same sample at pixel (50, 50)
  is outside and leaves no point.
\<close>

definition half_driver :: driver where
  "half_driver = stu_driver\<lparr>config := stu_config\<lparr>writingArea := Some (100, 100, 200, 200)\<rparr>\<rparr>"

definition sample_outside :: pen_sample where
  "sample_outside = sample_down\<lparr>cx := Num 50, cy := Num 50\<rparr>"

definition half_drawn :: driver where
  "half_drawn =
     half_driver\<lparr>signaturePath := [sample_down, sample_outside],
       svgElement := [\<lparr>stroke = [0, 0, 0], stroke_width = Num (7 / 4), points = [(Num 200, Num 100)]\<rparr>],
       svgPolyLine := None\<rparr>"

lemma half_run: "incremental (clearSignatureData half_driver) [sample_down, sample_outside] = Inr half_drawn"
proof -
  let ?d0 = "clearSignatureData half_driver"
  have i: "inked (config ?d0) sample_down" "\<not> inked (config ?d0) sample_outside"
    by (simp_all add: clearSignatureData_def half_driver_def inked_def isInWritingArea_def
        js_gt_def sample_down_def sample_outside_def)
  have "pushAndDraw ?d0 sample_down =
     Inr (?d0\<lparr>signaturePath := signaturePath ?d0 @ [sample_down],
            svgElement := svgElement ?d0 @ [newLine ?d0 [0, 0, 0] sample_down],
            svgPolyLine := Some (length (svgElement ?d0))\<rparr>)"
    by (rule pushAndDraw_start [OF i(1)]) (simp_all add: clearSignatureData_def half_driver_def)
  moreover have "config (?d0\<lparr>signaturePath := signaturePath ?d0 @ [sample_down],
            svgElement := svgElement ?d0 @ [newLine ?d0 [0, 0, 0] sample_down],
            svgPolyLine := Some (length (svgElement ?d0))\<rparr>) = config ?d0" by simp
  ultimately show ?thesis
    using i(2)
    by (simp add: bindE_def pushAndDraw_not_inked)
      (simp add: half_drawn_def clearSignatureData_def half_driver_def newLine_def strokeWidth_def
        pressureWidth_def sample_down_def)
qed

theorem writing_area_clipping_witness:
  "\<not> isInWritingArea (config half_driver) (cx sample_outside) (cy sample_outside)
   \<and> pushAndDraw half_driver sample_outside =
       Inr (half_driver\<lparr>signaturePath := [sample_outside], svgPolyLine := None\<rparr>)
   \<and> incremental (clearSignatureData half_driver) [sample_down, sample_outside] = Inr half_drawn
   \<and> map points (svgElement half_drawn) = [[(Num 200, Num 100)]]
   \<and> isInWritingArea (config half_driver) (Num 200) (Num 100)
   \<and> \<not> isInWritingArea (config half_driver) (Num 201) (Num 100)
   \<and> writingArea initial_config = None
   \<and> isInWritingArea initial_config (Num 5000) (Num 5000)"
proof -
  have o: "\<not> isInWritingArea (config half_driver) (cx sample_outside) (cy sample_outside)"
    by (simp add: half_driver_def isInWritingArea_def sample_outside_def sample_down_def js_gt_def)
  have w: "writingArea (config half_driver) = Some (100, 100, 200, 200)"
    by (simp add: half_driver_def)
  have n: "writingArea initial_config = None" by (simp add: initial_config_def)
  show ?thesis
    using o w n half_run
      writing_area_clipping [of half_driver sample_outside "[sample_down, sample_outside]" half_drawn
        "config half_driver" 100 100 200 200 200 100 initial_config "Num 5000" "Num 5000"]
      writing_area_clipping [of half_driver sample_outside "[sample_down, sample_outside]" half_drawn
        "config half_driver" 100 100 200 200 201 100 initial_config "Num 5000" "Num 5000"]
    by (simp add: half_driver_def half_drawn_def)
qed

section \<open>Counting the polylines of a stroke\<close>












section \<open>Drawing the whole log again\<close>

text \<open>The result of a drawing step with the stored path replaced.\<close>

definition withPath :: "pen_sample list \<Rightarrow> error + driver \<Rightarrow> error + driver" where
  "withPath ps r = bindE r (\<lambda>d'. Inr (d'\<lparr>signaturePath := ps\<rparr>))"

lemma withPath_simps [simp]:
  "withPath ps (Inl e) = Inl e" "withPath ps (Inr d) = Inr (d\<lparr>signaturePath := ps\<rparr>)"
  by (simp_all add: withPath_def bindE_def)

text \<open>
  Outside writing mode 1 the loop body looks at the stored path only at the index it
  draws and at the index before it.
\<close>

lemma drawPoint_cong_path:
  assumes "writingMode (config d) \<noteq> Some 1" "p1 ! i = p2 ! i" "0 < i \<longrightarrow> p1 ! (i - 1) = p2 ! (i - 1)"
  shows "drawPoint (d\<lparr>signaturePath := p1\<rparr>) i =
         withPath p1 (drawPoint (d\<lparr>signaturePath := p2\<rparr>) i)"
  using assms
  by (auto simp: drawPoint_def Let_def bindE_def startPolyLine_def addPolyPoint_def strokeWidth_def
      split: option.splits)

lemma draw_eq_incremental:
  assumes "writingMode (config d) \<noteq> Some 1" "signaturePath d = pre @ post"
  shows "drawSignaturePathToCanvas d (length pre) =
         withPath (pre @ post) (incremental (d\<lparr>signaturePath := pre\<rparr>) post)"
  using assms
proof (induction post arbitrary: pre d)
  case Nil
  then show ?case by (subst drawSignaturePathToCanvas.simps) simp
next
  case (Cons p post)
  let ?d2 = "d\<lparr>signaturePath := pre @ [p]\<rparr>"
  have dd: "d\<lparr>signaturePath := pre @ p # post\<rparr> = d" using Cons.prems(2) by simp
  have "drawPoint (d\<lparr>signaturePath := pre @ p # post\<rparr>) (length pre) =
      withPath (pre @ p # post) (drawPoint ?d2 (length pre))"
    by (rule drawPoint_cong_path) (use Cons.prems(1) in \<open>simp_all add: nth_append\<close>)
  then have dp: "drawPoint d (length pre) = withPath (pre @ p # post) (drawPoint ?d2 (length pre))"
    by (simp only: dd)
  have pd: "pushAndDraw (d\<lparr>signaturePath := pre\<rparr>) p = drawPoint ?d2 (length pre)"
    by (simp add: pushAndDraw_drawPoint)
  have lt: "length pre < length (signaturePath d)" using Cons.prems(2) by simp
  show ?case
  proof (cases "drawPoint ?d2 (length pre)")
    case (Inl e)
    have "drawSignaturePathToCanvas d (length pre) = Inl e"
      using lt dp Inl by (subst drawSignaturePathToCanvas.simps) simp
    moreover have "incremental (d\<lparr>signaturePath := pre\<rparr>) (p # post) = Inl e"
      using pd Inl by (simp add: bindE_def)
    ultimately show ?thesis by simp
  next
    case (Inr d1)
    have p1: "signaturePath d1 = pre @ [p]" using drawPoint_path [OF Inr] by simp
    have c1: "config d1 = config d" using drawPoint_config [OF Inr] by simp
    let ?d1' = "d1\<lparr>signaturePath := (pre @ [p]) @ post\<rparr>"
    have e: "?d1'\<lparr>signaturePath := pre @ [p]\<rparr> = d1" using p1 by simp
    have "drawSignaturePathToCanvas ?d1' (length (pre @ [p])) =
         withPath ((pre @ [p]) @ post) (incremental (?d1'\<lparr>signaturePath := pre @ [p]\<rparr>) post)"
      by (rule Cons.IH) (use Cons.prems(1) c1 in simp_all)
    then have ih: "drawSignaturePathToCanvas ?d1' (Suc (length pre)) =
         withPath (pre @ p # post) (incremental d1 post)"
      by (simp only: e) simp
    have "drawSignaturePathToCanvas d (length pre) = drawSignaturePathToCanvas ?d1' (Suc (length pre))"
      using lt dp Inr by (subst drawSignaturePathToCanvas.simps) simp
    moreover have "incremental (d\<lparr>signaturePath := pre\<rparr>) (p # post) = incremental d1 post"
      using pd Inr by (simp add: bindE_def)
    ultimately show ?thesis using ih by simp
  qed
qed

text \<open>
  With a stroke width that does not come from the pressure (any writing mode but 1),
  drawing the whole log from offset 0 gives the driver that handling the samples one by
  one gives: the same polylines with the same points, widths and colours.
\<close>

lemma replay_eq_incremental_fixed_width:
  assumes "writingMode (config d) \<noteq> Some 1"
  shows "replay d samples = incremental (clearSignatureData d) samples"
proof -
  let ?d0 = "clearSignatureData d"
  have e0: "?d0\<lparr>signaturePath := samples\<rparr>\<lparr>signaturePath := []\<rparr> = ?d0"
    by (simp add: clearSignatureData_def)
  have "drawSignaturePathToCanvas (?d0\<lparr>signaturePath := samples\<rparr>) (length ([] :: pen_sample list)) =
      withPath ([] @ samples) (incremental (?d0\<lparr>signaturePath := samples\<rparr>\<lparr>signaturePath := []\<rparr>) samples)"
    by (rule draw_eq_incremental) (use assms in \<open>simp_all add: clearSignatureData_def\<close>)
  then have r: "replay d samples = withPath samples (incremental ?d0 samples)"
    by (simp only: e0) (simp add: replay_def)
  show ?thesis
  proof (cases "incremental ?d0 samples")
    case (Inl e)
    then show ?thesis using r by simp
  next
    case (Inr d')
    have "signaturePath d' = samples"
      using incremental_keeps [OF Inr] by (simp add: clearSignatureData_def)
    then show ?thesis using r Inr by simp
  qed
qed


section \<open>Reading 16-bit values\<close>




section \<open>Reasoning about the negotiation\<close>






subsection \<open>The scale factors after a negotiation\<close>










section \<open>Decoding a pen report\<close>





section \<open>A negotiation that fails\<close>

subsection \<open>The fields are filled in order\<close>













subsection \<open>A read that fails ends the negotiation\<close>






subsection \<open>The claim\<close>








section \<open>Validation of the setters' parameters\<close>

lemma sendData_error: "fst (sendData d rid bytes) \<noteq> Inl InvalidParameter"
  by (simp add: sendData_def split: option.splits)

lemma stu_connected: "isConnected stu_driver"
  by (simp add: isConnected_def stu_device_def)

text \<open>
  Claim C9 says that a value outside the range makes each of the three setters fail with
  the invalid-parameter error. Each setter tests the connection first: on a driver that
  is not connected, a width of 7, a mode of 2 and an intensity of 4 fail with the error
  of a missing connection.
\<close>

theorem parameter_validation_counterexample:
  "fst (setPenColorAndWidth new_driver (255, 0, 0) 7) = Inl NotConnected
   \<and> fst (setWritingMode new_driver 2) = Inl NotConnected
   \<and> fst (setBrightness new_driver 4) = Inl NotConnected"
  by (simp add: setPenColorAndWidth_def setWritingMode_def setBrightness_def isConnected_def
      new_driver_def)

text \<open>
  Claim C9, amended. \<^verbatim>\<open>setPenColorAndWidth\<close> with a width outside {0,1,2,3},
  \<^verbatim>\<open>setWritingMode\<close> with a mode outside {0,1} and \<^verbatim>\<open>setBrightness\<close> with an intensity
  outside {0,1,2,3} each fail before any exchange with the device, leaving the driver as
  it was: with the invalid-parameter error on a connected driver, and with the error of
  a missing connection otherwise. For every width in {0,1,2,3} \<^verbatim>\<open>setPenColorAndWidth\<close>
  does not raise the invalid-parameter error.
\<close>

theorem parameter_validation:
  "(w \<notin> {0, 1, 2, 3} \<longrightarrow>
      setPenColorAndWidth d color w
        = (Inl (if isConnected d then InvalidParameter else NotConnected), d))
   \<and> (mode \<notin> {0, 1} \<longrightarrow>
      setWritingMode d mode = (Inl (if isConnected d then InvalidParameter else NotConnected), d))
   \<and> (intensity \<notin> {0, 1, 2, 3} \<longrightarrow>
      setBrightness d intensity
        = (Inl (if isConnected d then InvalidParameter else NotConnected), d))
   \<and> (w \<in> {0, 1, 2, 3} \<longrightarrow> fst (setPenColorAndWidth d color w) \<noteq> Inl InvalidParameter)"
proof -
  have "fst (setPenColorAndWidth d color w) \<noteq> Inl InvalidParameter" if "w \<in> {0, 1, 2, 3}"
  proof (cases "isConnected d")
    case False
    then show ?thesis by (simp add: setPenColorAndWidth_def)
  next
    case True
    let ?bytes = "map of_nat ((case color of (r, g, b) \<Rightarrow> [r, g, b]) @ [nat w])"
    obtain x d' where s: "sendData d cmdPenColorAndWidth ?bytes = (x, d')"
      by (cases "sendData d cmdPenColorAndWidth ?bytes")
    then have "x \<noteq> Inl InvalidParameter"
      using sendData_error [of d cmdPenColorAndWidth ?bytes] by simp
    then show ?thesis
      using True that s by (cases x) (auto simp: setPenColorAndWidth_def Let_def)
  qed
  then show ?thesis
    by (simp add: setPenColorAndWidth_def setWritingMode_def setBrightness_def)
qed

text \<open>
  On the connected driver: a width of 7, a mode of 2 and an intensity of 4 are refused and
  the log of the exchanges with the device is as before; a width of 3 is not refused.
\<close>

theorem parameter_validation_witness:
  "isConnected stu_driver
   \<and> setPenColorAndWidth stu_driver (255, 0, 0) 7 = (Inl InvalidParameter, stu_driver)
   \<and> setWritingMode stu_driver 2 = (Inl InvalidParameter, stu_driver)
   \<and> setBrightness stu_driver 4 = (Inl InvalidParameter, stu_driver)
   \<and> fst (setPenColorAndWidth stu_driver (255, 0, 0) 3) \<noteq> Inl InvalidParameter"
  using parameter_validation [of 7 stu_driver "(255, 0, 0)" 2 4]
    parameter_validation [of 3 stu_driver "(255, 0, 0)" 2 4] stu_connected
  by simp

section \<open>The split of an image\<close>

lemma loop_cond:
  "0 < bulkSize \<Longrightarrow>
   js_lt (num_of_nat i) (js_ceil (js_div (num_of_nat len) (num_of_nat bulkSize)))
     = (i < bulkCount len bulkSize)"
proof -
  assume b: "0 < bulkSize"
  have "(0::rat) \<le> of_nat len / of_nat bulkSize" by simp
  then have "(- 1::rat) < of_nat len / of_nat bulkSize" by linarith
  then have nn: "0 \<le> \<lceil>(of_nat len :: rat) / of_nat bulkSize\<rceil>"
    by (simp add: zero_le_ceiling)
  have "((of_nat i :: rat) < of_int \<lceil>(of_nat len :: rat) / of_nat bulkSize\<rceil>)
      = (int i < \<lceil>(of_nat len :: rat) / of_nat bulkSize\<rceil>)"
    by (metis of_int_less_iff of_int_of_nat_eq)
  also have "\<dots> = (i < bulkCount len bulkSize)"
    using nn by (simp add: bulkCount_def zless_nat_eq_int_zless)
  finally show ?thesis using b by (simp add: num_of_nat_def)
qed

lemma splitLoop_closed:
  assumes "0 < bulkSize"
  shows "i \<le> bulkCount (length arr) bulkSize \<Longrightarrow>
     splitLoop arr bulkSize i bulks
       = Some (bulks @ map (bulk arr bulkSize) [i ..< bulkCount (length arr) bulkSize])"
proof (induction "bulkCount (length arr) bulkSize - i" arbitrary: i bulks)
  case 0
  then have "\<not> i < bulkCount (length arr) bulkSize" by simp
  then show ?case using 0 assms
    by (subst splitLoop.simps) (simp add: loop_cond)
next
  case (Suc k)
  then have lt: "i < bulkCount (length arr) bulkSize" by simp
  have "splitLoop arr bulkSize (Suc i) (bulks @ [bulk arr bulkSize i])
      = Some ((bulks @ [bulk arr bulkSize i])
          @ map (bulk arr bulkSize) [Suc i ..< bulkCount (length arr) bulkSize])"
    using Suc lt by (intro Suc.hyps(1)) simp_all
  then show ?case using lt assms
    by (subst splitLoop.simps) (simp add: loop_cond upt_conv_Cons)
qed

text \<open>With a positive bulk size the loop ends, and gives the bulks 0, 1, ... in order.\<close>

lemma splitToBulks_closed:
  "0 < bulkSize \<Longrightarrow>
   splitToBulks arr bulkSize = Some (map (bulk arr bulkSize) [0 ..< bulkCount (length arr) bulkSize])"
  by (simp add: splitToBulks_def splitLoop_closed)

lemma filter_lt_upt: "filter (\<lambda>k. k < L) [a ..< c] = [a ..< min c L]"
proof (induction c)
  case 0
  then show ?case by simp
next
  case (Suc c)
  then show ?case
    by (cases "c < L") (auto simp: min_def not_less dest: le_antisym)
qed

lemma concat_ranges:
  "concat (map (\<lambda>i. map f [i * b ..< (i + 1) * b]) [0 ..< n]) = map f [0 ..< n * b]"
proof (induction n)
  case 0
  then show ?case by simp
next
  case (Suc n)
  have "[0 ..< Suc n * b] = [0 ..< n * b] @ [n * b ..< Suc n * b]"
    by (metis le_add2 mult_Suc upt_add_eq_append zero_le add.commute)
  then show ?case using Suc by simp
qed

lemma bulkCount_covers:
  assumes "0 < b" shows "len \<le> bulkCount len b * b"
proof -
  have "(of_nat len :: rat) / of_nat b \<le> of_int \<lceil>(of_nat len :: rat) / of_nat b\<rceil>"
    by (rule le_of_int_ceiling)
  moreover have "0 \<le> \<lceil>(of_nat len :: rat) / of_nat b\<rceil>"
  proof -
    have "(0::rat) \<le> of_nat len / of_nat b" by simp
    then have "(- 1::rat) < of_nat len / of_nat b" by linarith
    then show ?thesis by (simp add: zero_le_ceiling)
  qed
  ultimately have "(of_nat len :: rat) / of_nat b \<le> of_nat (bulkCount len b)"
    by (simp add: bulkCount_def)
  then have "(of_nat len :: rat) \<le> of_nat (bulkCount len b) * of_nat b"
    using assms by (simp add: divide_le_eq)
  then have "(of_nat len :: rat) \<le> of_nat (bulkCount len b * b)" by simp
  then show ?thesis using of_nat_le_iff by blast
qed

lemma concat_bulks:
  assumes "0 < b"
  shows "concat (map (bulk arr b) [0 ..< bulkCount (length arr) b])
       = map Some arr @ replicate (bulkCount (length arr) b * b - length arr) None"
proof -
  let ?n = "bulkCount (length arr) b"
  let ?f = "\<lambda>k. if k < length arr then Some (arr ! k) else None"
  have le: "length arr \<le> ?n * b" using assms by (rule bulkCount_covers)
  have "concat (map (bulk arr b) [0 ..< ?n]) = map ?f [0 ..< ?n * b]"
    using concat_ranges [of ?f b ?n] by (simp add: bulk_def [abs_def])
  also have "[0 ..< ?n * b] = [0 ..< length arr] @ [length arr ..< ?n * b]"
    using le by (metis le_add_diff_inverse upt_add_eq_append zero_le)
  also have "map ?f \<dots> = map ?f [0 ..< length arr] @ map ?f [length arr ..< ?n * b]" by simp
  also have "map ?f [0 ..< length arr] = map Some arr"
    by (rule nth_equalityI) simp_all
  also have "map ?f [length arr ..< ?n * b] = replicate (?n * b - length arr) None"
    by (rule nth_equalityI) simp_all
  finally show ?thesis .
qed

text \<open>
  The part of claim C4 that holds: with a positive bulk size, the split ends and gives
  \<open>ceil(length / bulkSize)\<close> bulks, each of \<open>bulkSize\<close> slots, and the slots of all
  bulks in order are the bytes of the image followed by empty slots only.
\<close>

lemma split_roundtrip:
  assumes "0 < b"
  shows "\<exists>bulks. splitToBulks arr b = Some bulks \<and> length bulks = bulkCount (length arr) b
           \<and> concat bulks = map Some arr @ replicate (length bulks * b - length arr) None"
  using assms by (simp add: splitToBulks_closed concat_bulks)

lemma length_bulk: "length (bulk arr b i) = b"
  by (simp add: bulk_def)

lemma occupied_bulk: "occupied (bulk arr b i) = min b (length arr - i * b)"
proof -
  let ?f = "\<lambda>k. if k < length arr then Some (arr ! k) else None"
  have "filter (\<lambda>v. v \<noteq> None) (bulk arr b i)
      = map ?f (filter (\<lambda>k. k < length arr) [i * b ..< (i + 1) * b])"
    by (simp add: bulk_def filter_map comp_def cong: filter_cong)
  moreover have "filter (\<lambda>k. k < length arr) [i * b ..< (i + 1) * b]
      = [i * b ..< min ((i + 1) * b) (length arr)]"
    by (rule filter_lt_upt)
  ultimately show ?thesis by (auto simp: occupied_def min_def)
qed

section \<open>A single upload\<close>

lemma callSend_props:
  assumes "isConnected (drv s)"
  shows "isConnected (drv (snd (callSend c rid bytes s)))"
    and "trace (snd (callSend c rid bytes s)) = trace s @ [(c, Send rid bytes)]"
    and "calls (snd (callSend c rid bytes s)) = calls s"
    and "config (drv (snd (callSend c rid bytes s))) = config (drv s)"
    and "device (drv (snd (callSend c rid bytes s))) = device (drv s)"
    and "deviceIsSending (drv (snd (callSend c rid bytes s))) = deviceIsSending (drv s)"
  using assms
  by (auto simp: callSend_def sendData_def isConnected_def split: option.splits prod.splits)

lemma callSend_accepted:
  assumes "device (drv s) = Some dev" "opened dev" "sendFeatureReport dev rid bytes"
  shows "fst (callSend c rid bytes s) = Inr ()"
  using assms by (simp add: callSend_def sendData_def split: prod.splits)

lemma forEachBulk_props:
  assumes "isConnected (drv s)"
  shows "trace (forEachBulk c es s) = trace s @ map (\<lambda>e. (c, Send writeImageData (dataPacket e))) es
       \<and> calls (forEachBulk c es s) = calls s
       \<and> config (drv (forEachBulk c es s)) = config (drv s)
       \<and> device (drv (forEachBulk c es s)) = device (drv s)
       \<and> deviceIsSending (drv (forEachBulk c es s)) = deviceIsSending (drv s)"
  using assms
proof (induction es arbitrary: s)
  case Nil
  then show ?case by simp
next
  case (Cons e es)
  let ?s1 = "snd (callSend c writeImageData (dataPacket e) s)"
  note c1 = callSend_props [OF Cons.prems, of c writeImageData "dataPacket e"]
  show ?case using Cons.IH [OF c1(1)] c1 by simp
qed

lemma resume_AwaitStart:
  assumes "c < length (calls s)" "calls s ! c = AwaitStart (Inr ()) bulks"
  shows "resume c s
      = (snd (callSend c writeImageEnd [0]
              (forEachBulk c bulks (s\<lparr>trace := trace s @ [(c, Settled writeImageStart)]\<rparr>))))
        \<lparr>calls := (calls (snd (callSend c writeImageEnd [0]
              (forEachBulk c bulks (s\<lparr>trace := trace s @ [(c, Settled writeImageStart)]\<rparr>)))))
           [c := AwaitEnd (fst (callSend c writeImageEnd [0]
              (forEachBulk c bulks (s\<lparr>trace := trace s @ [(c, Settled writeImageStart)]\<rparr>))))]\<rparr>"
  using assms by (simp add: resume_def Let_def split: prod.splits)

lemma resume_AwaitEnd:
  assumes "c < length (calls s)" "calls s ! c = AwaitEnd (Inr ())"
  shows "resume c s
      = s\<lparr>drv := (clearSignatureData (drv s))\<lparr>deviceIsSending := False\<rparr>,
           calls := (calls s)[c := Returned],
           trace := trace s @ [(c, Settled writeImageEnd)]\<rparr>"
  using assms by (simp add: resume_def)

text \<open>
  A call of \<^verbatim>\<open>setImage\<close> with nothing else running, on a connected driver whose device
  accepts every report: the start packet and its completion, then the data packets one
  after the other, then the end packet and its completion.
\<close>

lemma setImage_trace:
  assumes dev: "device d = Some dev" "opened dev" "\<And>rid bytes. sendFeatureReport dev rid bytes"
    and free: "\<not> deviceIsSending d"
    and size: "width (config d) = Some w" "height (config d) = Some h" "length img = w * h * 3"
    and split: "splitToBulks img (chunkSize (config d)) = Some bulks"
  shows "trace (setImage d img)
      = [(0, Send writeImageStart [of_nat (imageFormat24BGR (config d))]), (0, Settled writeImageStart)]
        @ map (\<lambda>e. (0, Send writeImageData (dataPacket e))) bulks
        @ [(0, Send writeImageEnd [0]), (0, Settled writeImageEnd)]"
    and "calls (setImage d img) = [Returned]"
proof -
  let ?start = "(0, Send writeImageStart [of_nat (imageFormat24BGR (config d))])"
  define s1 where "s1 = resume 0 (start_system d [img])"
  have s1: "calls s1 = [AwaitStart (Inr ()) bulks]" "trace s1 = [?start]"
    "device (drv s1) = Some dev"
    using dev free size split
    by (simp_all add: s1_def resume_def start_system_def enterLoop_def callSend_def sendData_def
        isConnected_def Let_def)
  define s2 where "s2 = forEachBulk 0 bulks (s1\<lparr>trace := trace s1 @ [(0, Settled writeImageStart)]\<rparr>)"
  have c1: "isConnected (drv (s1\<lparr>trace := trace s1 @ [(0, Settled writeImageStart)]\<rparr>))"
    using s1(3) dev(2) by (simp add: isConnected_def)
  have f: "trace s2 = [?start, (0, Settled writeImageStart)]
        @ map (\<lambda>e. (0, Send writeImageData (dataPacket e))) bulks"
    "calls s2 = [AwaitStart (Inr ()) bulks]" "device (drv s2) = Some dev"
    using forEachBulk_props [OF c1, of 0 bulks] s1 by (simp_all add: s2_def)
  have c2: "isConnected (drv s2)" using f(3) dev(2) by (simp add: isConnected_def)
  define s3 where "s3 = snd (callSend 0 writeImageEnd [0] s2)"
  have e: "trace s3 = trace s2 @ [(0, Send writeImageEnd [0])]" "calls s3 = calls s2"
    using callSend_props [OF c2, of 0 writeImageEnd "[0]"] by (simp_all add: s3_def)
  have r: "fst (callSend 0 writeImageEnd [0] s2) = Inr ()"
    using f(3) dev(2) dev(3) by (rule callSend_accepted)
  have "resume 0 s1 = s3\<lparr>calls := (calls s3)[0 := AwaitEnd (Inr ())]\<rparr>"
    using resume_AwaitStart [of 0 s1 bulks] s1(1) r by (simp add: s2_def s3_def)
  then have "resume 0 (resume 0 s1)
      = resume 0 (s3\<lparr>calls := (calls s3)[0 := AwaitEnd (Inr ())]\<rparr>)"
    by simp
  also have "\<dots> = (s3\<lparr>calls := (calls s3)[0 := AwaitEnd (Inr ())]\<rparr>)
        \<lparr>drv := (clearSignatureData (drv (s3\<lparr>calls := (calls s3)[0 := AwaitEnd (Inr ())]\<rparr>)))
                  \<lparr>deviceIsSending := False\<rparr>,
          calls := (calls (s3\<lparr>calls := (calls s3)[0 := AwaitEnd (Inr ())]\<rparr>))[0 := Returned],
          trace := trace (s3\<lparr>calls := (calls s3)[0 := AwaitEnd (Inr ())]\<rparr>)
                     @ [(0, Settled writeImageEnd)]\<rparr>"
    by (rule resume_AwaitEnd) (simp_all add: e f)
  finally have s4: "trace (resume 0 (resume 0 s1)) = trace s3 @ [(0, Settled writeImageEnd)]"
    "calls (resume 0 (resume 0 s1)) = [Returned]"
    by (simp_all add: e f)
  have "setImage d img = resume 0 (resume 0 s1)"
    by (simp add: setImage_def s1_def)
  then show "trace (setImage d img)
      = [?start, (0, Settled writeImageStart)]
        @ map (\<lambda>e. (0, Send writeImageData (dataPacket e))) bulks
        @ [(0, Send writeImageEnd [0]), (0, Settled writeImageEnd)]"
    and "calls (setImage d img) = [Returned]"
    using s4 e f by simp_all
qed

text \<open>An image of the size of the display, 800 by 480 pixels of 3 bytes, all of them 0.\<close>

definition blank_image :: "byte list" where
  "blank_image = replicate 1152000 0"

lemma length_blank_image: "length blank_image = 1152000"
  unfolding blank_image_def by (rule length_replicate)

lemma bulkCount_image: "bulkCount 1152000 253 = 4554"
proof -
  have "\<lceil>(1152000 :: rat) / 253\<rceil> = 4554"
    by (rule ceiling_unique) simp_all
  then show ?thesis by (simp add: bulkCount_def)
qed

lemma split_blank_image:
  "splitToBulks blank_image (chunkSize (config stu_driver))
     = Some (map (bulk blank_image 253) [0 ..< 4554])"
  using splitToBulks_closed [of 253 blank_image]
  by (simp add: length_blank_image bulkCount_image)

lemma upload_blank_image:
  "trace (setImage stu_driver blank_image)
     = [(0, Send writeImageStart [4]), (0, Settled writeImageStart)]
       @ map (\<lambda>e. (0, Send writeImageData (dataPacket e))) (map (bulk blank_image 253) [0 ..< 4554])
       @ [(0, Send writeImageEnd [0]), (0, Settled writeImageEnd)]"
  using setImage_trace(1) [of stu_driver "stu_device\<lparr>opened := True\<rparr>" 800 480 blank_image,
      OF _ _ _ _ _ _ _ split_blank_image]
  by (simp add: length_blank_image stu_device_def)

text \<open>
  Claim C4 says that the first byte of every data packet is the number of bytes of the
  image in its chunk. \<^verbatim>\<open>#splitToBulks\<close> makes every bulk an array of \<open>bulkSize\<close> slots,
  also the last one, and the first byte of the packet is the length of that array. For
  the image of the display, 1152000 bytes in bulks of 253: there are 4554 bulks, the
  last one holds 91 bytes of the image, and its packet, which \<^verbatim>\<open>setImage\<close> sends, has
  255 bytes and declares 253.
\<close>

theorem last_packet_declares_bulk_size:
  "\<exists>bulks. splitToBulks blank_image (chunkSize (config stu_driver)) = Some bulks
     \<and> length bulks = 4554
     \<and> occupied (last bulks) = 91
     \<and> length (dataPacket (last bulks)) = 255
     \<and> hd (dataPacket (last bulks)) = 253
     \<and> (0, Send writeImageData (dataPacket (last bulks)))
         \<in> set (trace (setImage stu_driver blank_image))"
proof -
  let ?bulks = "map (bulk blank_image 253) [0 ..< 4554]"
  have l: "last ?bulks = bulk blank_image 253 4553"
  proof -
    have "[0 ..< 4554] = [0 ..< 4553] @ [4553::nat]"
      using upt_Suc_append [of 0 4553] by simp
    then show ?thesis by simp
  qed
  have "occupied (bulk blank_image 253 4553) = 91"
    by (simp add: occupied_bulk length_blank_image)
  moreover have "length (dataPacket (bulk blank_image 253 4553)) = 255"
    by (simp add: dataPacket_def length_bulk)
  moreover have "hd (dataPacket (bulk blank_image 253 4553)) = 253"
    by (simp add: dataPacket_def length_bulk)
  moreover have "(0, Send writeImageData (dataPacket (bulk blank_image 253 4553)))
      \<in> set (trace (setImage stu_driver blank_image))"
  proof -
    have "(4553::nat) \<in> set [0 ..< 4554]" by simp
    then have "bulk blank_image 253 4553 \<in> set ?bulks"
      unfolding set_map by (rule imageI)
    then have "(0, Send writeImageData (dataPacket (bulk blank_image 253 4553)))
        \<in> set (map (\<lambda>e. (0, Send writeImageData (dataPacket e))) ?bulks)"
      unfolding set_map [of _ ?bulks] by (rule imageI)
    then show ?thesis
      unfolding upload_blank_image set_append by blast
  qed
  ultimately show ?thesis
    using split_blank_image l by (simp del: map_map)
qed

section \<open>The order of the sends of an upload\<close>

text \<open>
  In a trace, every send is awaited: each send is directly followed by the resumption of
  the same call after that send has settled.
\<close>

fun awaited :: "(nat \<times> action) list \<Rightarrow> bool" where
  "awaited [] = True"
| "awaited ((c, Send r b) # (c', Settled r') # t) = (c = c' \<and> r = r' \<and> awaited t)"
| "awaited ((c, Send r b) # t) = False"
| "awaited (x # t) = awaited t"

text \<open>
  Claim C2 says that within a call of \<^verbatim>\<open>setImage\<close> each send is completed before the
  next one starts. The data packets are sent by
  \<^verbatim>\<open>imageDataBulks.forEach(async (e) => { await this.#sendData(...) })\<close>: the
  \<^verbatim>\<open>await\<close> suspends the callback only, and \<^verbatim>\<open>forEach\<close> drops the promise it returns.
  For the image of the display: after the start packet has settled, the 4554 data
  packets and the end packet are handed to the device one after the other, in ascending
  order, and the call is resumed for none of the data packets; the first two data packets
  already follow each other with no completion in between.
\<close>

theorem data_sends_not_awaited:
  "trace (setImage stu_driver blank_image)
     = [(0, Send writeImageStart [4]), (0, Settled writeImageStart)]
       @ map (\<lambda>i. (0, Send writeImageData (dataPacket (bulk blank_image 253 i)))) [0 ..< 4554]
       @ [(0, Send writeImageEnd [0]), (0, Settled writeImageEnd)]
   \<and> (0, Settled writeImageData) \<notin> set (trace (setImage stu_driver blank_image))
   \<and> \<not> awaited (trace (setImage stu_driver blank_image))"
proof -
  let ?p = "\<lambda>i. (0::nat, Send writeImageData (dataPacket (bulk blank_image 253 i)))"
  have t: "trace (setImage stu_driver blank_image)
     = [(0, Send writeImageStart [4]), (0, Settled writeImageStart)]
       @ map ?p [0 ..< 4554] @ [(0, Send writeImageEnd [0]), (0, Settled writeImageEnd)]"
    unfolding upload_blank_image by (simp add: comp_def)
  have n: "(0, Settled writeImageData) \<notin> set (trace (setImage stu_driver blank_image))"
    unfolding t by (auto simp: command_ids)
  have "[0 ..< 4554] = 0 # Suc 0 # [Suc (Suc 0) ..< 4554]"
    using upt_conv_Cons [of 0 4554] upt_conv_Cons [of "Suc 0" 4554] by simp
  then have "map ?p [0 ..< 4554] = ?p 0 # ?p (Suc 0) # map ?p [Suc (Suc 0) ..< 4554]"
    by (simp only: list.map)
  then have "trace (setImage stu_driver blank_image)
     = (0, Send writeImageStart [4]) # (0, Settled writeImageStart) # ?p 0 # ?p (Suc 0)
       # (map ?p [Suc (Suc 0) ..< 4554] @ [(0, Send writeImageEnd [0]), (0, Settled writeImageEnd)])"
    unfolding t by (simp only: append.simps)
  then have "\<not> awaited (trace (setImage stu_driver blank_image))"
    by (simp only: awaited.simps simp_thms)
  then show ?thesis using t n by blast
qed

end
